theory Spec2Isabelle
  imports Main "HOL-Library.Word"
begin

section \<open>Values, errors and effects\<close>

text \<open>
  The memoization core of the repository lives twice in the sources: in \<^verbatim>\<open>function.js\<close>
  (classes \<^verbatim>\<open>DefaultMap\<close> and \<^verbatim>\<open>Cache\<close>, used by the three advices of \<^verbatim>\<open>memoize\<close>) and in
  \<^verbatim>\<open>descorators.js\<close> (helpers \<^verbatim>\<open>retrieve\<close>, \<^verbatim>\<open>retrieveByArguments\<close>, \<^verbatim>\<open>keyFor\<close> and the
  three branches of \<^verbatim>\<open>memoize\<close>). Both are embedded here, function by function.

  A JavaScript value is a tagged union. Objects and callables carry their identity (an
  address); two of them are the same reference exactly when the addresses agree. A number
  is a signed integer of 54 bits, from \<open>- 2^53\<close> to \<open>2^53 - 1\<close>: a double holds each of
  them exactly and a template literal prints each of them in plain decimal. Other doubles
  are not modelled.
\<close>

type_synonym number = "54 word"

datatype jsval =
    JUndefined
  | JNull
  | JBoolean bool
  | JNumber number
  | JString string
  | JSymbol nat
  | JObject nat
  | JFunction nat

text \<open>
  Everything that can be thrown: the two built-in errors the embedded code can raise by
  itself, and whatever a user-supplied callable throws.
\<close>

datatype error = TypeError | ReferenceError | Thrown jsval

text \<open>
  A user-supplied callable (a compute thunk, a getter, a constructor) runs on the part of
  the program state that lies outside the caches, the world \<open>'w\<close>. It either returns a
  value or throws, and leaves a new world behind.
\<close>

type_synonym ('w, 'a) thunk = "'w \<Rightarrow> (error + 'a) \<times> 'w"

text \<open>
  The keys a \<^verbatim>\<open>WeakMap\<close> holds are objects and callables; \<^verbatim>\<open>WeakMap.prototype.set\<close> throws
  a \<^verbatim>\<open>TypeError\<close> on anything else. A \<^verbatim>\<open>Map\<close> takes every key.
\<close>

fun WeakMap_can_set :: "jsval \<Rightarrow> bool" where
  "WeakMap_can_set (JObject a) = True"
| "WeakMap_can_set (JFunction a) = True"
| "WeakMap_can_set v = False"

definition Map_can_set :: "'k \<Rightarrow> bool" where
  "Map_can_set k = True"

section \<open>DefaultMap (function.js) and retrieve (descorators.js)\<close>

text \<open>
  \<^verbatim>\<open>fetch(key, fallback) { if (!this.store.has(key)) this.store.set(key, fallback())
                           return this.store.get(key) }\<close>

  The wrapped store is a finite map; \<open>can_set\<close> says which keys its \<^verbatim>\<open>set\<close> accepts. On a
  miss the fallback runs first (it is the argument of \<^verbatim>\<open>set\<close>), then \<^verbatim>\<open>set\<close> stores its
  result or throws; when the fallback throws nothing is stored.
\<close>

definition DefaultMap_fetch ::
  "('k \<Rightarrow> bool) \<Rightarrow> 'k \<Rightarrow> ('w, 'v) thunk \<Rightarrow> ('k \<rightharpoonup> 'v) \<times> 'w \<Rightarrow> (error + 'v) \<times> ('k \<rightharpoonup> 'v) \<times> 'w"
where
  "DefaultMap_fetch can_set key fallback = (\<lambda>(store, w).
     case store key of
       Some v \<Rightarrow> (Inr v, store, w)
     | None \<Rightarrow>
        (case fallback w of
           (Inl e, w') \<Rightarrow> (Inl e, store, w')
         | (Inr v, w') \<Rightarrow>
            if can_set key then (Inr v, store(key \<mapsto> v), w')
            else (Inl TypeError, store, w')))"

text \<open>\<^verbatim>\<open>get(key) { return this.fetch(key, this.fallback) }\<close>\<close>

definition DefaultMap_get ::
  "('k \<Rightarrow> bool) \<Rightarrow> ('w, 'v) thunk \<Rightarrow> 'k \<Rightarrow> ('k \<rightharpoonup> 'v) \<times> 'w \<Rightarrow> (error + 'v) \<times> ('k \<rightharpoonup> 'v) \<times> 'w"
where
  "DefaultMap_get can_set fallback key = DefaultMap_fetch can_set key fallback"

text \<open>
  \<^verbatim>\<open>function retrieve(store, key, create) {
    store.has(key) || store.set(key, create())
    return store.get(key) }\<close>
\<close>

definition retrieve ::
  "('k \<Rightarrow> bool) \<Rightarrow> 'k \<Rightarrow> ('w, 'v) thunk \<Rightarrow> ('k \<rightharpoonup> 'v) \<times> 'w \<Rightarrow> (error + 'v) \<times> ('k \<rightharpoonup> 'v) \<times> 'w"
where
  "retrieve can_set key create = (\<lambda>(store, w).
     if store key \<noteq> None then (case store key of Some v \<Rightarrow> (Inr v, store, w))
     else
       (case create w of
          (Inl e, w') \<Rightarrow> (Inl e, store, w')
        | (Inr v, w') \<Rightarrow>
           if can_set key then (Inr v, store(key \<mapsto> v), w')
           else (Inl TypeError, store, w')))"

section \<open>The identity registry\<close>

text \<open>
  \<^verbatim>\<open>static guuid = 1
  static references = new DefaultMap(new WeakMap(), () => Cache.guuid++)\<close>
  in \<^verbatim>\<open>function.js\<close>, and \<^verbatim>\<open>let guuid = 1; const references = new WeakMap()\<close> in
  \<^verbatim>\<open>descorators.js\<close>. The counter is the world of the fallback \<^verbatim>\<open>() => guuid++\<close>, which
  returns the old value. The counter is an exact integer here (a double is one below
  \<open>2^53\<close>). A \<^verbatim>\<open>WeakMap\<close> drops an entry only after its key has become unreachable, so for
  references that are alive the finite map is the \<^verbatim>\<open>WeakMap\<close>.
\<close>

record registry =
  references :: "jsval \<rightharpoonup> nat"
  guuid :: nat

definition registry0 :: registry where
  "registry0 = \<lparr>references = Map.empty, guuid = 1\<rparr>"

definition guuid_increment :: "(nat, nat) thunk" where
  "guuid_increment g = (Inr g, g + 1)"

text \<open>\<^verbatim>\<open>Cache.references.get(it)\<close>\<close>

definition Cache_references_get :: "jsval \<Rightarrow> registry \<Rightarrow> (error + nat) \<times> registry" where
  "Cache_references_get it r =
     (case DefaultMap_get WeakMap_can_set guuid_increment it (references r, guuid r) of
        (res, refs, g) \<Rightarrow> (res, \<lparr>references = refs, guuid = g\<rparr>))"

text \<open>\<^verbatim>\<open>retrieve(references, it, () => guuid++)\<close>\<close>

definition references_retrieve :: "jsval \<Rightarrow> registry \<Rightarrow> (error + nat) \<times> registry" where
  "references_retrieve it r =
     (case retrieve WeakMap_can_set it guuid_increment (references r, guuid r) of
        (res, refs, g) \<Rightarrow> (res, \<lparr>references = refs, guuid = g\<rparr>))"

text \<open>Registering a sequence of references one after the other, from a given registry.\<close>

fun register_all :: "jsval list \<Rightarrow> registry \<Rightarrow> registry" where
  "register_all [] r = r"
| "register_all (x # xs) r = register_all xs (snd (Cache_references_get x r))"

text \<open>Every id handed out so far is below the counter, and no id is handed out twice.\<close>

definition registry_ok :: "registry \<Rightarrow> bool" where
  "registry_ok r \<longleftrightarrow>
     1 \<le> guuid r \<and>
     (\<forall>a i. references r a = Some i \<longrightarrow> 1 \<le> i \<and> i < guuid r) \<and>
     (\<forall>a b i. references r a = Some i \<and> references r b = Some i \<longrightarrow> a = b)"

section \<open>Composite keys\<close>

text \<open>
  \<^verbatim>\<open>it.replace('"', '\"')\<close>: with a string pattern, \<^verbatim>\<open>String.prototype.replace\<close> rewrites the
  first occurrence only. In a JavaScript string literal \<^verbatim>\<open>\"\<close> is the escape sequence of the
  quote character itself, so pattern and replacement are the same one-character string.
\<close>

abbreviation dq :: char where
  "dq \<equiv> CHR 0x22"

fun replace :: "string \<Rightarrow> string \<Rightarrow> string \<Rightarrow> string" where
  "replace [] pat rep = (if pat = [] then rep else [])"
| "replace (c # cs) pat rep =
     (if take (length pat) (c # cs) = pat then rep @ drop (length pat) (c # cs)
      else c # replace cs pat rep)"

text \<open>The token of a string, \<^verbatim>\<open>`"${it.replace('"', '\"')}"`\<close>.\<close>

definition quoted :: "string \<Rightarrow> string" where
  "quoted s = [dq] @ replace s [dq] [dq] @ [dq]"

text \<open>Decimal digits of a natural number, and the rendering of a number by a template literal.\<close>

function decimal :: "nat \<Rightarrow> string" where
  "decimal n =
     (if n < 10 then [''0123456789'' ! n]
      else decimal (n div 10) @ [''0123456789'' ! (n mod 10)])"
  by pat_completeness auto
termination
  by (relation "measure id") auto

declare decimal.simps [simp del]

definition Number_toString :: "number \<Rightarrow> string" where
  "Number_toString x =
     (if sint x < 0 then CHR ''-'' # decimal (nat (- sint x)) else decimal (nat (sint x)))"

text \<open>\<^verbatim>\<open>Array.prototype.join\<close> on strings.\<close>

fun join :: "string \<Rightarrow> string list \<Rightarrow> string" where
  "join sep [] = []"
| "join sep [t] = t"
| "join sep (t # u # ts) = t @ sep @ join sep (u # ts)"

text \<open>
  \<^verbatim>\<open>Array.prototype.map\<close> with a callback that has effects on the registry \<open>'r\<close> and may
  throw: elements are visited from left to right, and the first exception ends the loop.
\<close>

fun Array_map :: "('a \<Rightarrow> 'r \<Rightarrow> (error + 'b) \<times> 'r) \<Rightarrow> 'a list \<Rightarrow> 'r \<Rightarrow> (error + 'b list) \<times> 'r" where
  "Array_map f [] r = (Inr [], r)"
| "Array_map f (x # xs) r =
     (case f x r of
        (Inl e, r') \<Rightarrow> (Inl e, r')
      | (Inr y, r') \<Rightarrow>
         (case Array_map f xs r' of
            (Inl e, r'') \<Rightarrow> (Inl e, r'')
          | (Inr ys, r'') \<Rightarrow> (Inr (y # ys), r'')))"

text \<open>The token of a reference, \<^verbatim>\<open>`<${id}>`\<close>, from the outcome of the registry lookup.\<close>

fun bracketed :: "(error + nat) \<times> 'r \<Rightarrow> (error + string) \<times> 'r" where
  "bracketed (Inl e, r) = (Inl e, r)"
| "bracketed (Inr n, r) = (Inr (''<'' @ decimal n @ ''>''), r)"

text \<open>
  The callback of \<^verbatim>\<open>Cache.keyFrom\<close> in \<^verbatim>\<open>function.js\<close>:
  \<^verbatim>\<open>if (it == null) return `${it}`
  switch (typeof it) {
    case "object": case "function": return `<${references.get(it)}>`
    case "string": return `"${it.replace('"', '\"')}"`
    default: return `${it}` }\<close>

  What \<^verbatim>\<open>references.get(it)\<close> does is the parameter \<open>references_get\<close>: \<^verbatim>\<open>function.js\<close>
  has no declaration of the identifier \<^verbatim>\<open>references\<close> that this callback reads (the
  registry is the static member \<^verbatim>\<open>Cache.references\<close>), and reading an undeclared
  identifier throws a \<^verbatim>\<open>ReferenceError\<close>; that lookup is \<open>references_undeclared\<close> below.
  A template literal throws a \<^verbatim>\<open>TypeError\<close> on a symbol.
\<close>

definition references_undeclared :: "jsval \<Rightarrow> 'r \<Rightarrow> (error + nat) \<times> 'r" where
  "references_undeclared it r = (Inl ReferenceError, r)"

fun keyFrom_token ::
  "(jsval \<Rightarrow> 'r \<Rightarrow> (error + nat) \<times> 'r) \<Rightarrow> jsval \<Rightarrow> 'r \<Rightarrow> (error + string) \<times> 'r" where
  "keyFrom_token references_get JNull r = (Inr ''null'', r)"
| "keyFrom_token references_get JUndefined r = (Inr ''undefined'', r)"
| "keyFrom_token references_get (JObject a) r = bracketed (references_get (JObject a) r)"
| "keyFrom_token references_get (JFunction a) r = bracketed (references_get (JFunction a) r)"
| "keyFrom_token references_get (JString s) r = (Inr (quoted s), r)"
| "keyFrom_token references_get (JBoolean b) r = (Inr (if b then ''true'' else ''false''), r)"
| "keyFrom_token references_get (JNumber n) r = (Inr (Number_toString n), r)"
| "keyFrom_token references_get (JSymbol n) r = (Inl TypeError, r)"

text \<open>\<^verbatim>\<open>static keyFrom(parameters) { return parameters.map((it) => ...).join(",") }\<close>\<close>

definition Cache_keyFrom ::
  "(jsval \<Rightarrow> 'r \<Rightarrow> (error + nat) \<times> 'r) \<Rightarrow> jsval list \<Rightarrow> 'r \<Rightarrow> (error + string) \<times> 'r" where
  "Cache_keyFrom references_get parameters r =
     (case Array_map (keyFrom_token references_get) parameters r of
        (Inl e, r') \<Rightarrow> (Inl e, r')
      | (Inr tokens, r') \<Rightarrow> (Inr (join '','' tokens), r'))"

text \<open>
  The callback of \<^verbatim>\<open>keyFor\<close> in \<^verbatim>\<open>descorators.js\<close>:
  \<^verbatim>\<open>switch (typeof it) {
    case "object": if (it === null) return "null"
    case "function": return `<${retrieve(references, it, () => guuid++)}>`
    case "string": return `"${it.replace('"', '\"')}"`
    default: return `${it}` }\<close>
\<close>

fun keyFor_token :: "jsval \<Rightarrow> registry \<Rightarrow> (error + string) \<times> registry" where
  "keyFor_token JNull r = (Inr ''null'', r)"
| "keyFor_token (JObject a) r = bracketed (references_retrieve (JObject a) r)"
| "keyFor_token (JFunction a) r = bracketed (references_retrieve (JFunction a) r)"
| "keyFor_token (JString s) r = (Inr (quoted s), r)"
| "keyFor_token JUndefined r = (Inr ''undefined'', r)"
| "keyFor_token (JBoolean b) r = (Inr (if b then ''true'' else ''false''), r)"
| "keyFor_token (JNumber n) r = (Inr (Number_toString n), r)"
| "keyFor_token (JSymbol n) r = (Inl TypeError, r)"

text \<open>\<^verbatim>\<open>function keyFor(...args) { return args.map((it) => ...).join(",") }\<close>\<close>

definition keyFor :: "jsval list \<Rightarrow> registry \<Rightarrow> (error + string) \<times> registry" where
  "keyFor args r =
     (case Array_map keyFor_token args r of
        (Inl e, r') \<Rightarrow> (Inl e, r')
      | (Inr tokens, r') \<Rightarrow> (Inr (join '','' tokens), r'))"


section \<open>Cache (function.js)\<close>

text \<open>
  \<^verbatim>\<open>constructor() { this.store = new DefaultMap(new WeakMap(),
                                () => new DefaultMap(new Map(), null)) }\<close>

  One \<^verbatim>\<open>Cache\<close> holds, for every receiver, the table from composite keys to results. The
  state a \<^verbatim>\<open>fetch\<close> runs on is this store, the registry the key builder uses, and the world
  of the compute thunk.
\<close>

type_synonym table = "string \<rightharpoonup> jsval"

record ('r, 'w) state =
  store :: "jsval \<rightharpoonup> table"
  registry :: 'r
  world :: 'w

definition new_table :: "(unit, table) thunk" where
  "new_table u = (Inr Map.empty, u)"

text \<open>
  \<^verbatim>\<open>fetch(context, parameters, fallback) {
    return this.store.get(context).fetch(Cache.keyFrom(parameters), fallback) }\<close>

  The receiver's table is resolved first, then the key is built, then the table is asked.
  The table is an object held by the outer store, so what the inner \<^verbatim>\<open>fetch\<close> writes is
  seen through the outer store.
\<close>

definition Cache_fetch ::
  "(jsval \<Rightarrow> 'r \<Rightarrow> (error + nat) \<times> 'r) \<Rightarrow> jsval \<Rightarrow> jsval list \<Rightarrow> ('w, jsval) thunk \<Rightarrow>
   ('r, 'w) state \<Rightarrow> (error + jsval) \<times> ('r, 'w) state" where
  "Cache_fetch references_get context parameters fallback s =
     (case DefaultMap_get WeakMap_can_set new_table context (store s, ()) of
        (Inl e, st, u) \<Rightarrow> (Inl e, s\<lparr>store := st\<rparr>)
      | (Inr inner, st, u) \<Rightarrow>
         (case Cache_keyFrom references_get parameters (registry s) of
            (Inl e, r) \<Rightarrow> (Inl e, s\<lparr>store := st, registry := r\<rparr>)
          | (Inr key, r) \<Rightarrow>
             (case DefaultMap_fetch Map_can_set key fallback (inner, world s) of
                (res, inner', w) \<Rightarrow>
                  (res, \<lparr>store = st(context \<mapsto> inner'), registry = r, world = w\<rparr>))))"

text \<open>The entry of a receiver and a key, if there is one.\<close>

definition entry :: "(jsval \<rightharpoonup> table) \<Rightarrow> jsval \<Rightarrow> string \<Rightarrow> jsval option" where
  "entry st context key = (case st context of None \<Rightarrow> None | Some t \<Rightarrow> t key)"

section \<open>memoize (function.js)\<close>

text \<open>
  A method is called on a receiver with a list of arguments; a constructor is called with
  \<^verbatim>\<open>new\<close> on a list of arguments.
\<close>

type_synonym 'w jsmethod = "jsval \<Rightarrow> jsval list \<Rightarrow> ('w, jsval) thunk"

type_synonym 'w getter = "jsval \<Rightarrow> ('w, jsval) thunk"

type_synonym 'w setter = "jsval \<Rightarrow> jsval \<Rightarrow> ('w, jsval) thunk"

text \<open>
  What a derived-class constructor hands to \<^verbatim>\<open>new\<close> when it returns a value without
  having called \<^verbatim>\<open>super\<close>: an object is the result, \<^verbatim>\<open>undefined\<close> asks for the
  uninitialised \<^verbatim>\<open>this\<close> (a \<^verbatim>\<open>ReferenceError\<close>), any other value is a \<^verbatim>\<open>TypeError\<close>.
\<close>

fun derived_return :: "(error + jsval) \<times> 's \<Rightarrow> (error + jsval) \<times> 's" where
  "derived_return (Inl e, s) = (Inl e, s)"
| "derived_return (Inr (JObject a), s) = (Inr (JObject a), s)"
| "derived_return (Inr (JFunction a), s) = (Inr (JFunction a), s)"
| "derived_return (Inr JUndefined, s) = (Inl ReferenceError, s)"
| "derived_return (Inr v, s) = (Inl TypeError, s)"

text \<open>
  \<^verbatim>\<open>class: function(target) {
    const cache = new Cache()
    return class MemoizedClass extends target {
      constructor(...parameters) {
        return cache.fetch(target, parameters, () => new target(...parameters)) } } }\<close>

  \<open>new_target parameters\<close> is \<^verbatim>\<open>new target(...parameters)\<close>.
\<close>

definition MemoizedClass ::
  "(jsval \<Rightarrow> 'r \<Rightarrow> (error + nat) \<times> 'r) \<Rightarrow> jsval \<Rightarrow> (jsval list \<Rightarrow> ('w, jsval) thunk) \<Rightarrow>
   jsval list \<Rightarrow> ('r, 'w) state \<Rightarrow> (error + jsval) \<times> ('r, 'w) state" where
  "MemoizedClass references_get target new_target parameters s =
     derived_return (Cache_fetch references_get target parameters (new_target parameters) s)"

text \<open>
  \<^verbatim>\<open>value(target) {
    const cache = new Cache()
    function memoized(...parameters) {
      return cache.fetch(this, parameters, () => target.apply(this, parameters)) }
    Object.setPrototypeOf(memoized, target)
    memoized.prototype = Object.create(target.prototype) }\<close>

  The local function \<^verbatim>\<open>memoized\<close> is the wrapper; the advice itself has no \<^verbatim>\<open>return\<close>
  statement, so its result is \<^verbatim>\<open>undefined\<close>.
\<close>

definition memoized ::
  "(jsval \<Rightarrow> 'r \<Rightarrow> (error + nat) \<times> 'r) \<Rightarrow> 'w jsmethod \<Rightarrow> jsval \<Rightarrow> jsval list \<Rightarrow>
   ('r, 'w) state \<Rightarrow> (error + jsval) \<times> ('r, 'w) state" where
  "memoized references_get target this parameters s =
     Cache_fetch references_get this parameters (target this parameters) s"

datatype 'f advised = NotCallable jsval | Callable 'f

definition memoize_value ::
  "(jsval \<Rightarrow> 'r \<Rightarrow> (error + nat) \<times> 'r) \<Rightarrow> 'w jsmethod \<Rightarrow>
   (jsval \<Rightarrow> jsval list \<Rightarrow> ('r, 'w) state \<Rightarrow> (error + jsval) \<times> ('r, 'w) state) advised" where
  "memoize_value references_get target = NotCallable JUndefined"

text \<open>
  \<^verbatim>\<open>use\<close> stores the result of the advice as the property
  (\<^verbatim>\<open>descriptor.value = aspect.value(descriptor.value)\<close>); calling the property calls that
  value, and calling a value that is not callable throws a \<^verbatim>\<open>TypeError\<close>.
\<close>

fun call_value :: "('a \<Rightarrow> 'b \<Rightarrow> 's \<Rightarrow> (error + jsval) \<times> 's) advised \<Rightarrow> 'a \<Rightarrow> 'b \<Rightarrow> 's \<Rightarrow> (error + jsval) \<times> 's" where
  "call_value (NotCallable v) this parameters s = (Inl TypeError, s)"
| "call_value (Callable f) this parameters s = f this parameters s"

text \<open>
  \<^verbatim>\<open>accessor(getter, setter) {
    let cache, invalid = true
    return {
      get() { if (invalid) { cache = getter.call(this); invalid = false }
              return cache },
      set(value) { cache = void 0; invalid = true
                   return setter.call(this, value) } } }\<close>

  The two variables belong to the one call of the advice that decorates the property. An
  accessor declared without a getter or without a setter has \<^verbatim>\<open>undefined\<close> in its place.
\<close>

record closure =
  cache :: jsval
  invalid :: bool

definition closure0 :: closure where
  "closure0 = \<lparr>cache = JUndefined, invalid = True\<rparr>"

definition accessor_get ::
  "'w getter option \<Rightarrow> jsval \<Rightarrow> closure \<times> 'w \<Rightarrow> (error + jsval) \<times> closure \<times> 'w" where
  "accessor_get getter this = (\<lambda>(c, w).
     if invalid c then
       (case getter of
          None \<Rightarrow> (Inl TypeError, c, w)
        | Some g \<Rightarrow>
           (case g this w of
              (Inl e, w') \<Rightarrow> (Inl e, c, w')
            | (Inr v, w') \<Rightarrow> (Inr v, c\<lparr>cache := v, invalid := False\<rparr>, w')))
     else (Inr (cache c), c, w))"

definition accessor_set ::
  "'w setter option \<Rightarrow> jsval \<Rightarrow> jsval \<Rightarrow> closure \<times> 'w \<Rightarrow> (error + jsval) \<times> closure \<times> 'w" where
  "accessor_set setter this v = (\<lambda>(c, w).
     case setter of
       None \<Rightarrow> (Inl TypeError, c\<lparr>cache := JUndefined, invalid := True\<rparr>, w)
     | Some f \<Rightarrow>
        (case f this v w of
           (res, w') \<Rightarrow> (res, c\<lparr>cache := JUndefined, invalid := True\<rparr>, w')))"

section \<open>memoize (descorators.js)\<close>

text \<open>
  The method branch and the accessor branch are embedded. The class branch is not: it ends
  in \<^verbatim>\<open>proxyProperties\<close>, whose first step calls \<^verbatim>\<open>getOwnPropertyNames\<close>, a constant the
  file takes from \<^verbatim>\<open>Object.prototype\<close>, which has no property of that name.
\<close>

text \<open>
  \<^verbatim>\<open>function retrieveByArguments() {
    return retrieve(this.store, keyFor(...arguments), this.init(...arguments)) }\<close>

  \<open>init args\<close> is the thunk \<^verbatim>\<open>this.init(...arguments)\<close> builds.
\<close>

definition retrieveByArguments ::
  "(jsval list \<Rightarrow> ('w, jsval) thunk) \<Rightarrow> jsval list \<Rightarrow> table \<times> registry \<times> 'w \<Rightarrow>
   (error + jsval) \<times> table \<times> registry \<times> 'w" where
  "retrieveByArguments init args = (\<lambda>(t, r, w).
     case keyFor args r of
       (Inl e, r') \<Rightarrow> (Inl e, t, r', w)
     | (Inr key, r') \<Rightarrow>
        (case retrieve Map_can_set key (init args) (t, w) of
           (res, t', w') \<Rightarrow> (res, t', r', w')))"

text \<open>
  \<^verbatim>\<open>const cache = new WeakMap(), bound = new WeakMap(), method = descriptor.value
  descriptor.value = function memoizedMethod() {
    const init = retrieve(bound, this, () => bind.bind(method, this)),
          store = retrieve(cache, this, () => new Map())
    return { store, init }::retrieveByArguments(...arguments) }\<close>

  \<^verbatim>\<open>bound\<close> remembers, for a receiver, the method bound to it; the entry is written here as
  the receiver the method is bound to.
\<close>

record 'w method_state =
  bound :: "jsval \<rightharpoonup> jsval"
  tables :: "jsval \<rightharpoonup> table"
  ids :: registry
  outside :: 'w

definition bind_method :: "jsval \<Rightarrow> (unit, jsval) thunk" where
  "bind_method this u = (Inr this, u)"

definition memoizedMethod ::
  "'w jsmethod \<Rightarrow> jsval \<Rightarrow> jsval list \<Rightarrow> 'w method_state \<Rightarrow> (error + jsval) \<times> 'w method_state" where
  "memoizedMethod method this args s =
     (case retrieve WeakMap_can_set this (bind_method this) (bound s, ()) of
        (Inl e, b, u) \<Rightarrow> (Inl e, s\<lparr>bound := b\<rparr>)
      | (Inr receiver, b, u) \<Rightarrow>
         (case retrieve WeakMap_can_set this new_table (tables s, ()) of
            (Inl e, ts, u') \<Rightarrow> (Inl e, s\<lparr>bound := b, tables := ts\<rparr>)
          | (Inr t, ts, u') \<Rightarrow>
             (case retrieveByArguments (method receiver) args (t, ids s, outside s) of
                (res, t', r, w) \<Rightarrow>
                  (res, \<lparr>bound = b, tables = ts(this \<mapsto> t'), ids = r, outside = w\<rparr>))))"

text \<open>
  \<^verbatim>\<open>const cache = new WeakMap(), { get: getter, set: setter } = descriptor
  descriptor.get = function memoizedGetter() {
    return retrieve(cache, this, this::getter) }\<close>

  \<^verbatim>\<open>this::getter\<close> is \<^verbatim>\<open>getter.bind(this)\<close>, which throws when there is no getter.
\<close>

definition memoizedGetter ::
  "'w getter option \<Rightarrow> jsval \<Rightarrow> (jsval \<rightharpoonup> jsval) \<times> 'w \<Rightarrow> (error + jsval) \<times> (jsval \<rightharpoonup> jsval) \<times> 'w" where
  "memoizedGetter getter this = (\<lambda>(c, w).
     case getter of
       None \<Rightarrow> (Inl TypeError, c, w)
     | Some g \<Rightarrow> retrieve WeakMap_can_set this (g this) (c, w))"

text \<open>
  \<^verbatim>\<open>descriptor.set = function memoizedSetter(value) {
    if (typeof setter === "function") {
      cache.set(this, this::setter(value))
    } else if (value === void 0) {
      cache.delete(this)
    } else {
      throw new TypeError(`Default memoized setter only accepts 'undefined'`)
    }
    return cache.get(this) }\<close>
\<close>

definition memoizedSetter ::
  "'w setter option \<Rightarrow> jsval \<Rightarrow> jsval \<Rightarrow> (jsval \<rightharpoonup> jsval) \<times> 'w \<Rightarrow> (error + jsval) \<times> (jsval \<rightharpoonup> jsval) \<times> 'w" where
  "memoizedSetter setter this v = (\<lambda>(c, w).
     case setter of
       Some f \<Rightarrow>
        (case f this v w of
           (Inl e, w') \<Rightarrow> (Inl e, c, w')
         | (Inr res, w') \<Rightarrow>
            if WeakMap_can_set this then (Inr res, c(this \<mapsto> res), w')
            else (Inl TypeError, c, w'))
     | None \<Rightarrow>
        if v = JUndefined then (Inr JUndefined, c(this := None), w)
        else (Inl TypeError, c, w))"


section \<open>Reading the state\<close>

text \<open>The table of a receiver; a receiver that has none yet is given an empty one.\<close>

definition scope :: "(jsval \<rightharpoonup> table) \<Rightarrow> jsval \<Rightarrow> table" where
  "scope st context = (case st context of None \<Rightarrow> Map.empty | Some t \<Rightarrow> t)"

text \<open>
  The cache entry of a memoized accessor is either empty or holds a value. In
  \<^verbatim>\<open>function.js\<close> it is the pair of closure variables, in \<^verbatim>\<open>descorators.js\<close> the entry of
  the receiver in the \<^verbatim>\<open>WeakMap\<close>.
\<close>

datatype entry_state = Empty | Populated jsval

definition closure_state :: "closure \<Rightarrow> entry_state" where
  "closure_state c = (if invalid c then Empty else Populated (cache c))"

definition receiver_state :: "(jsval \<rightharpoonup> jsval) \<Rightarrow> jsval \<Rightarrow> entry_state" where
  "receiver_state m this = (case m this of None \<Rightarrow> Empty | Some v \<Rightarrow> Populated v)"

section \<open>Properties of the stores\<close>

lemma retrieve_is_fetch: "retrieve can_set key create = DefaultMap_fetch can_set key create"
  by (auto simp: retrieve_def DefaultMap_fetch_def fun_eq_iff split: option.splits)

lemma references_retrieve_is_get: "references_retrieve it r = Cache_references_get it r"
  by (simp add: references_retrieve_def Cache_references_get_def DefaultMap_get_def
      retrieve_is_fetch)

lemma references_get_hit:
  "references r a = Some i \<Longrightarrow> Cache_references_get a r = (Inr i, r)"
  by (simp add: Cache_references_get_def DefaultMap_get_def DefaultMap_fetch_def)

lemma references_get_miss:
  "references r a = None \<Longrightarrow> WeakMap_can_set a \<Longrightarrow>
   Cache_references_get a r =
     (Inr (guuid r), \<lparr>references = (references r)(a \<mapsto> guuid r), guuid = guuid r + 1\<rparr>)"
  by (simp add: Cache_references_get_def DefaultMap_get_def DefaultMap_fetch_def
      guuid_increment_def)

lemma references_get_reject:
  "references r a = None \<Longrightarrow> \<not> WeakMap_can_set a \<Longrightarrow>
   Cache_references_get a r = (Inl TypeError, \<lparr>references = references r, guuid = guuid r + 1\<rparr>)"
  by (simp add: Cache_references_get_def DefaultMap_get_def DefaultMap_fetch_def
      guuid_increment_def)

lemma registry_ok_initial: "registry_ok registry0"
  by (simp add: registry_ok_def registry0_def)

lemma registry_ok_get: "registry_ok r \<Longrightarrow> registry_ok (snd (Cache_references_get a r))"
proof (cases "references r a")
  case None
  assume ok: "registry_ok r"
  then have below: "\<And>b i. references r b = Some i \<Longrightarrow> 1 \<le> i \<and> i < guuid r"
    and inj: "\<And>b c i. references r b = Some i \<Longrightarrow> references r c = Some i \<Longrightarrow> b = c"
    and pos: "1 \<le> guuid r"
    by (auto simp: registry_ok_def)
  show ?thesis
  proof (cases "WeakMap_can_set a")
    case True
    show ?thesis
      unfolding references_get_miss [OF None True] registry_ok_def
      using below inj pos by (auto split: if_splits dest: below)
  next
    case False
    show ?thesis
      unfolding references_get_reject [OF None False] registry_ok_def
      using below inj pos by (auto intro: less_SucI dest: below)
  qed
next
  case (Some i)
  assume "registry_ok r"
  then show ?thesis by (simp add: references_get_hit [OF Some])
qed

lemma registry_ok_register_all: "registry_ok r \<Longrightarrow> registry_ok (register_all xs r)"
  by (induction xs arbitrary: r) (simp_all add: registry_ok_get)

text \<open>The equations that evaluate a registry lookup.\<close>

lemmas registry_eval = Cache_references_get_def DefaultMap_get_def DefaultMap_fetch_def
  guuid_increment_def registry0_def

text \<open>Replacing a pattern by itself changes nothing, so the quoting step escapes nothing.\<close>

lemma replace_same: "replace s pat pat = s"
proof (induction s)
  case Nil
  then show ?case by simp
next
  case (Cons c cs)
  have "take (length pat) (c # cs) = pat \<Longrightarrow> pat @ drop (length pat) (c # cs) = c # cs"
    by (metis append_take_drop_id)
  with Cons show ?case by simp
qed

lemma quoted_unescaped: "quoted s = dq # s @ [dq]"
  by (simp add: quoted_def replace_same)

section \<open>Properties of Cache.fetch\<close>

lemma entry_scope: "entry st context key = scope st context key"
  by (simp add: entry_def scope_def split: option.splits)

lemma scope_update: "scope (st(context \<mapsto> t)) context = t"
  by (simp add: scope_def)

lemma Cache_fetch_resolved:
  assumes "WeakMap_can_set context"
    and "Cache_keyFrom lk ps (registry s) = (Inr key, r)"
  shows "Cache_fetch lk context ps fallback s =
    (case DefaultMap_fetch Map_can_set key fallback (scope (store s) context, world s) of
       (res, inner', w) \<Rightarrow> (res, \<lparr>store = (store s)(context \<mapsto> inner'), registry = r, world = w\<rparr>))"
  using assms
  by (cases "store s context")
    (simp_all add: Cache_fetch_def DefaultMap_get_def DefaultMap_fetch_def new_table_def scope_def)

lemma Cache_fetch_miss:
  assumes "WeakMap_can_set context"
    and "Cache_keyFrom lk ps (registry s) = (Inr key, r)"
    and "entry (store s) context key = None"
  shows "Cache_fetch lk context ps fallback s =
    (case fallback (world s) of
       (Inl e, w) \<Rightarrow> (Inl e, \<lparr>store = (store s)(context \<mapsto> scope (store s) context), registry = r, world = w\<rparr>)
     | (Inr v, w) \<Rightarrow> (Inr v, \<lparr>store = (store s)(context \<mapsto> (scope (store s) context)(key \<mapsto> v)), registry = r, world = w\<rparr>))"
  using assms(3)
  by (simp add: Cache_fetch_resolved [OF assms(1,2)] DefaultMap_fetch_def entry_scope Map_can_set_def
      split: prod.splits sum.splits)

lemma Cache_fetch_hit:
  assumes "Cache_keyFrom lk ps (registry s) = (Inr key, r)"
    and "entry (store s) context key = Some v"
  shows "Cache_fetch lk context ps fallback s = (Inr v, s\<lparr>registry := r\<rparr>)"
  using assms
  by (cases "store s context")
    (simp_all add: Cache_fetch_def DefaultMap_get_def DefaultMap_fetch_def entry_def fun_upd_idem)

lemma Cache_fetch_stores:
  assumes "Cache_fetch lk context ps fallback s = (Inr v, s1)"
    and "Cache_keyFrom lk ps (registry s) = (Inr key, r1)"
  shows "entry (store s1) context key = Some v \<and> registry s1 = r1"
proof (cases "store s context")
  case None
  with assms show ?thesis
    by (auto simp: Cache_fetch_def DefaultMap_get_def DefaultMap_fetch_def new_table_def
        Map_can_set_def entry_def split: if_splits prod.splits sum.splits)
next
  case (Some t)
  with assms show ?thesis
    by (cases "t key")
      (auto simp: Cache_fetch_def DefaultMap_get_def DefaultMap_fetch_def
        Map_can_set_def entry_def split: if_splits prod.splits sum.splits)
qed

lemma Cache_fetch_builds_key:
  assumes "Cache_fetch lk context ps fallback s = (Inr v, s1)"
  shows "\<exists>key r1. Cache_keyFrom lk ps (registry s) = (Inr key, r1)"
proof (cases "Cache_keyFrom lk ps (registry s)")
  case (Pair res r1)
  show ?thesis
  proof (cases res)
    case (Inl e)
    with Pair assms show ?thesis
      by (auto simp: Cache_fetch_def split: prod.splits sum.splits)
  next
    case (Inr key)
    with Pair show ?thesis by simp
  qed
qed

section \<open>A key built twice is the same key\<close>

text \<open>
  With the registry of \<^verbatim>\<open>Cache.references\<close>, building the key of an argument list only adds
  entries to the registry, and building it again afterwards gives the same key and changes
  nothing. \<^verbatim>\<open>keyFor\<close> of \<^verbatim>\<open>descorators.js\<close> is \<^verbatim>\<open>Cache.keyFrom\<close> with that registry.
\<close>

lemma references_get_grows:
  "Cache_references_get a r = (res, r') \<Longrightarrow> references r \<subseteq>\<^sub>m references r'"
  by (auto simp: Cache_references_get_def DefaultMap_get_def DefaultMap_fetch_def guuid_increment_def
      map_le_def split: option.splits if_splits)

lemma references_get_registers:
  "Cache_references_get a r = (Inr n, r') \<Longrightarrow> references r' a = Some n"
  by (auto simp: Cache_references_get_def DefaultMap_get_def DefaultMap_fetch_def guuid_increment_def
      split: option.splits if_splits)

lemma references_get_again:
  assumes "Cache_references_get a r = (Inr n, r')" and "references r' \<subseteq>\<^sub>m references r''"
  shows "Cache_references_get a r'' = (Inr n, r'')"
proof -
  from assms(1) have "references r' a = Some n"
    by (rule references_get_registers)
  with assms(2) have "references r'' a = Some n"
    by (metis domI map_le_def)
  then show ?thesis
    by (rule references_get_hit)
qed

lemma bracketed_Inr:
  "bracketed p = (Inr t, r') \<Longrightarrow> \<exists>n. p = (Inr n, r') \<and> t = ''<'' @ decimal n @ ''>''"
  by (cases p rule: bracketed.cases) auto

lemma keyFrom_token_grows:
  "keyFrom_token Cache_references_get x r = (res, r') \<Longrightarrow> references r \<subseteq>\<^sub>m references r'"
proof (cases x)
  case (JObject a)
  assume "keyFrom_token Cache_references_get x r = (res, r')"
  with JObject show ?thesis
    by (cases "Cache_references_get (JObject a) r" rule: bracketed.cases)
      (auto dest: references_get_grows)
next
  case (JFunction a)
  assume "keyFrom_token Cache_references_get x r = (res, r')"
  with JFunction show ?thesis
    by (cases "Cache_references_get (JFunction a) r" rule: bracketed.cases)
      (auto dest: references_get_grows)
qed auto

lemma keyFrom_token_again:
  assumes "keyFrom_token Cache_references_get x r = (Inr t, r')"
    and "references r' \<subseteq>\<^sub>m references r''"
  shows "keyFrom_token Cache_references_get x r'' = (Inr t, r'')"
proof (cases x)
  case (JObject a)
  with assms(1) obtain n where "Cache_references_get (JObject a) r = (Inr n, r')"
    and t: "t = ''<'' @ decimal n @ ''>''"
    by (auto dest: bracketed_Inr)
  from references_get_again [OF this(1) assms(2)] t JObject show ?thesis
    by simp
next
  case (JFunction a)
  with assms(1) obtain n where "Cache_references_get (JFunction a) r = (Inr n, r')"
    and t: "t = ''<'' @ decimal n @ ''>''"
    by (auto dest: bracketed_Inr)
  from references_get_again [OF this(1) assms(2)] t JFunction show ?thesis
    by simp
qed (use assms(1) in auto)

lemma Array_map_tokens_grows:
  "Array_map (keyFrom_token Cache_references_get) xs r = (res, r') \<Longrightarrow>
   references r \<subseteq>\<^sub>m references r'"
proof (induction xs arbitrary: r res r')
  case Nil
  then show ?case by simp
next
  case (Cons x xs)
  obtain y r1 where tok: "keyFrom_token Cache_references_get x r = (y, r1)"
    by (cases "keyFrom_token Cache_references_get x r")
  from keyFrom_token_grows [OF tok] have le1: "references r \<subseteq>\<^sub>m references r1" .
  show ?case
  proof (cases y)
    case (Inl e)
    with Cons.prems tok le1 show ?thesis by simp
  next
    case (Inr t)
    obtain ys r2 where rest: "Array_map (keyFrom_token Cache_references_get) xs r1 = (ys, r2)"
      by (cases "Array_map (keyFrom_token Cache_references_get) xs r1")
    from Cons.IH [OF rest] have "references r1 \<subseteq>\<^sub>m references r2" .
    with le1 have "references r \<subseteq>\<^sub>m references r2"
      by (rule map_le_trans)
    with Cons.prems tok Inr rest show ?thesis
      by (cases ys) auto
  qed
qed

lemma Array_map_tokens_again:
  "Array_map (keyFrom_token Cache_references_get) xs r = (Inr ts, r') \<Longrightarrow>
   references r' \<subseteq>\<^sub>m references r'' \<Longrightarrow>
   Array_map (keyFrom_token Cache_references_get) xs r'' = (Inr ts, r'')"
proof (induction xs arbitrary: r ts)
  case Nil
  then show ?case by simp
next
  case (Cons x xs)
  from Cons.prems(1) obtain t r1 us where tok: "keyFrom_token Cache_references_get x r = (Inr t, r1)"
    and rest: "Array_map (keyFrom_token Cache_references_get) xs r1 = (Inr us, r')"
    and ts: "ts = t # us"
    by (auto split: prod.splits sum.splits)
  from Array_map_tokens_grows [OF rest] Cons.prems(2)
  have "references r1 \<subseteq>\<^sub>m references r''"
    by (rule map_le_trans)
  from keyFrom_token_again [OF tok this] Cons.IH [OF rest Cons.prems(2)] ts show ?case
    by simp
qed

lemma Cache_keyFrom_stable:
  assumes "Cache_keyFrom Cache_references_get parameters r = (Inr key, r')"
  shows "Cache_keyFrom Cache_references_get parameters r' = (Inr key, r')"
proof -
  from assms obtain ts where "Array_map (keyFrom_token Cache_references_get) parameters r = (Inr ts, r')"
    and "key = join '','' ts"
    by (auto simp: Cache_keyFrom_def split: prod.splits sum.splits)
  with Array_map_tokens_again [OF this(1) map_le_refl] show ?thesis
    by (simp add: Cache_keyFrom_def)
qed

lemma keyFor_token_is_keyFrom_token: "keyFor_token = keyFrom_token Cache_references_get"
proof (intro ext)
  fix x r
  show "keyFor_token x r = keyFrom_token Cache_references_get x r"
    by (cases x) (simp_all add: references_retrieve_is_get)
qed

lemma keyFor_is_keyFrom: "keyFor args r = Cache_keyFrom Cache_references_get args r"
  by (simp add: keyFor_def Cache_keyFrom_def keyFor_token_is_keyFrom_token)

lemma keyFor_stable: "keyFor args r = (Inr key, r') \<Longrightarrow> keyFor args r' = (Inr key, r')"
  by (simp add: keyFor_is_keyFrom Cache_keyFrom_stable)

lemma key_1_a:
  "Cache_keyFrom lk [JNumber 1, JString ''a''] r = (Inr (''1,'' @ [dq] @ ''a'' @ [dq]), r)"
  by (simp add: Cache_keyFrom_def quoted_unescaped Number_toString_def decimal.simps)

text \<open>The wrapper that the value advice of \<^verbatim>\<open>function.js\<close> defines hands the call to the cache.\<close>

lemma memoized_delegates:
  "call_value (Callable (memoized lk target)) this parameters s =
     Cache_fetch lk this parameters (target this parameters) s"
  by (simp add: memoized_def)

section \<open>Properties of the memoized constructor\<close>

text \<open>
  Once a construction has returned an instance, the next one with the same argument list
  returns that instance and runs no constructor, provided the list gets the same key again.
  With the registry of \<^verbatim>\<open>Cache.references\<close> as the lookup that holds for every list; with the
  undeclared \<^verbatim>\<open>references\<close> of \<^verbatim>\<open>function.js\<close> a key is built exactly for the lists that hold
  no object and no callable.
\<close>

lemma derived_return_value:
  assumes "derived_return (res, s) = (Inr inst, s1)"
  shows "res = Inr inst \<and> s = s1 \<and> WeakMap_can_set inst"
proof (cases res)
  case (Inl e)
  with assms show ?thesis by simp
next
  case (Inr v)
  with assms show ?thesis by (cases v) auto
qed

lemma derived_return_reference:
  "WeakMap_can_set inst \<Longrightarrow> derived_return (Inr inst, s) = (Inr inst, s)"
  by (cases inst) simp_all

lemma MemoizedClass_fetch:
  assumes "MemoizedClass lk target new_target A s = (Inr inst, s1)"
  shows "Cache_fetch lk target A (new_target A) s = (Inr inst, s1) \<and> WeakMap_can_set inst"
proof -
  obtain res s' where f: "Cache_fetch lk target A (new_target A) s = (res, s')"
    by (cases "Cache_fetch lk target A (new_target A) s")
  with assms have "derived_return (res, s') = (Inr inst, s1)"
    by (simp add: MemoizedClass_def)
  from derived_return_value [OF this] f show ?thesis
    by simp
qed

lemma MemoizedClass_again:
  assumes "MemoizedClass lk target new_target A s = (Inr inst, s1)"
    and "Cache_keyFrom lk A (registry s) = (Inr key, r1)"
    and "Cache_keyFrom lk A r1 = (Inr key, r2)"
  shows "MemoizedClass lk target new_target' A s1 = (Inr inst, s1\<lparr>registry := r2\<rparr>)"
proof -
  from MemoizedClass_fetch [OF assms(1)]
  have f: "Cache_fetch lk target A (new_target A) s = (Inr inst, s1)" and obj: "WeakMap_can_set inst"
    by simp_all
  from Cache_fetch_stores [OF f assms(2)]
  have stored: "entry (store s1) target key = Some inst" and reg: "registry s1 = r1"
    by simp_all
  from assms(3) reg have "Cache_keyFrom lk A (registry s1) = (Inr key, r2)"
    by simp
  from Cache_fetch_hit [OF this stored]
  have "Cache_fetch lk target A (new_target' A) s1 = (Inr inst, s1\<lparr>registry := r2\<rparr>)" .
  with obj show ?thesis
    by (simp add: MemoizedClass_def derived_return_reference)
qed

lemma MemoizedClass_again_registry:
  assumes "MemoizedClass Cache_references_get target new_target A s = (Inr inst, s1)"
  shows "MemoizedClass Cache_references_get target new_target' A s1 = (Inr inst, s1)"
proof -
  from MemoizedClass_fetch [OF assms]
  have f: "Cache_fetch Cache_references_get target A (new_target A) s = (Inr inst, s1)"
    by simp
  from Cache_fetch_builds_key [OF f] obtain key r1
    where k: "Cache_keyFrom Cache_references_get A (registry s) = (Inr key, r1)"
    by blast
  from Cache_fetch_stores [OF f k] have reg: "registry s1 = r1"
    by simp
  from MemoizedClass_again [OF assms k Cache_keyFrom_stable [OF k]] reg show ?thesis
    by simp
qed

lemma MemoizedClass_first:
  assumes "WeakMap_can_set target"
    and "Cache_keyFrom lk A (registry s) = (Inr key, r1)"
    and "entry (store s) target key = None"
    and "new_target A (world s) = (Inr inst, w1)"
    and "WeakMap_can_set inst"
  shows "\<exists>s1. MemoizedClass lk target new_target A s = (Inr inst, s1) \<and> world s1 = w1"
  using assms(4,5)
  by (simp add: MemoizedClass_def Cache_fetch_miss [OF assms(1,2,3)] derived_return_reference)

lemma keyFrom_token_undeclared:
  "keyFrom_token references_undeclared x r = (res, r') \<Longrightarrow> r' = r"
  by (cases x) (auto simp: references_undeclared_def)

lemma Array_map_undeclared:
  "Array_map (keyFrom_token references_undeclared) xs r = (res, r') \<Longrightarrow> r' = r"
proof (induction xs arbitrary: res r')
  case Nil
  then show ?case by simp
next
  case (Cons x xs)
  obtain y r1 where tok: "keyFrom_token references_undeclared x r = (y, r1)"
    by (cases "keyFrom_token references_undeclared x r")
  from keyFrom_token_undeclared [OF tok] have r1: "r1 = r" .
  obtain ys r2 where rest: "Array_map (keyFrom_token references_undeclared) xs r = (ys, r2)"
    by (cases "Array_map (keyFrom_token references_undeclared) xs r")
  from Cons.IH [OF rest] have "r2 = r" .
  with Cons.prems tok r1 rest show ?case
    by (cases y; cases ys) auto
qed

lemma Cache_keyFrom_undeclared_pure:
  "Cache_keyFrom references_undeclared parameters r = (res, r') \<Longrightarrow> r' = r"
  by (auto simp: Cache_keyFrom_def split: prod.splits sum.splits dest: Array_map_undeclared)

lemma Cache_keyFrom_undeclared_reference:
  "WeakMap_can_set x \<Longrightarrow> x \<in> set parameters \<Longrightarrow>
   \<exists>e. Cache_keyFrom references_undeclared parameters r = (Inl e, r)"
proof (induction parameters)
  case Nil
  then show ?case by simp
next
  case (Cons y ys)
  show ?case
  proof (cases "keyFrom_token references_undeclared y r")
    case (Pair res r1)
    from keyFrom_token_undeclared [OF Pair] have r1: "r1 = r" .
    show ?thesis
    proof (cases res)
      case (Inl e)
      with Pair r1 show ?thesis
        by (simp add: Cache_keyFrom_def)
    next
      case (Inr t)
      with Pair Cons.prems(1) have "x \<noteq> y"
        by (cases y) (auto simp: references_undeclared_def)
      with Cons.prems have "x \<in> set ys"
        by simp
      from Cons.IH [OF Cons.prems(1) this] obtain e
        where "Cache_keyFrom references_undeclared ys r = (Inl e, r)"
        by blast
      with Pair Inr r1 show ?thesis
        by (auto simp: Cache_keyFrom_def split: prod.splits sum.splits)
    qed
  qed
qed

lemma MemoizedClass_again_undeclared:
  assumes "MemoizedClass references_undeclared target new_target A s = (Inr inst, s1)"
  shows "MemoizedClass references_undeclared target new_target' A s1 = (Inr inst, s1)"
proof -
  from MemoizedClass_fetch [OF assms]
  have f: "Cache_fetch references_undeclared target A (new_target A) s = (Inr inst, s1)"
    by simp
  from Cache_fetch_builds_key [OF f] obtain key r1
    where k: "Cache_keyFrom references_undeclared A (registry s) = (Inr key, r1)"
    by blast
  from Cache_keyFrom_undeclared_pure [OF k] have r1: "r1 = registry s" .
  from Cache_fetch_stores [OF f k] have reg: "registry s1 = r1"
    by simp
  from k r1 have k2: "Cache_keyFrom references_undeclared A r1 = (Inr key, r1)"
    by simp
  from MemoizedClass_again [OF assms k k2] reg show ?thesis
    by simp
qed

lemma MemoizedClass_undeclared_primitives:
  "MemoizedClass references_undeclared (JFunction 0) (\<lambda>ps n. (Inr (JObject n), n + 1))
     [JNumber 1, JString ''a''] \<lparr>store = Map.empty, registry = (), world = 10::nat\<rparr> =
     (Inr (JObject 10),
      \<lparr>store = [JFunction 0 \<mapsto> [''1,'' @ [dq] @ ''a'' @ [dq] \<mapsto> JObject 10]], registry = (),
       world = 11\<rparr>) \<and>
   MemoizedClass references_undeclared (JFunction 0) (\<lambda>ps n. (Inr (JObject n), n + 1))
     [JNumber 1, JString ''a'']
     \<lparr>store = [JFunction 0 \<mapsto> [''1,'' @ [dq] @ ''a'' @ [dq] \<mapsto> JObject 10]], registry = (),
       world = 11::nat\<rparr> =
     (Inr (JObject 10),
      \<lparr>store = [JFunction 0 \<mapsto> [''1,'' @ [dq] @ ''a'' @ [dq] \<mapsto> JObject 10]], registry = (),
       world = 11\<rparr>)"
  by (simp add: MemoizedClass_def Cache_fetch_def DefaultMap_get_def DefaultMap_fetch_def
      new_table_def Map_can_set_def key_1_a)

section \<open>Properties of memoizedMethod and of the accessors of descorators.js\<close>

text \<open>
  The method wrapper of \<^verbatim>\<open>descorators.js\<close> computes once per receiver and key, and keeps no
  entry when the method throws. Its getter and setter touch the entry of their receiver only.
\<close>

lemma memoizedMethod_resolved:
  assumes "WeakMap_can_set this"
    and "bound s this = None \<or> bound s this = Some this"
    and "keyFor args (ids s) = (Inr key, r)"
  shows "memoizedMethod method this args s =
    (case retrieve Map_can_set key (method this args) (scope (tables s) this, outside s) of
       (res, t', w) \<Rightarrow>
         (res, \<lparr>bound = (bound s)(this \<mapsto> this), tables = (tables s)(this \<mapsto> t'), ids = r,
                outside = w\<rparr>))"
proof (cases "tables s this")
  case None
  with assms show ?thesis
    by (auto simp: memoizedMethod_def retrieveByArguments_def retrieve_is_fetch DefaultMap_fetch_def
        bind_method_def new_table_def scope_def fun_upd_idem split: prod.splits)
next
  case (Some t)
  with assms show ?thesis
    by (auto simp: memoizedMethod_def retrieveByArguments_def retrieve_is_fetch DefaultMap_fetch_def
        bind_method_def new_table_def scope_def fun_upd_idem split: prod.splits)
qed

lemma memoizedMethod_computes_once:
  assumes "WeakMap_can_set this"
    and "bound s this = None \<or> bound s this = Some this"
    and "keyFor args (ids s) = (Inr key, r1)"
    and "entry (tables s) this key = None"
    and "method this args (outside s) = (Inr v, w1)"
  shows "\<exists>s1. memoizedMethod method this args s = (Inr v, s1) \<and> outside s1 = w1 \<and>
           (\<forall>method'. memoizedMethod method' this args s1 = (Inr v, s1))"
proof -
  let ?s1 = "\<lparr>bound = (bound s)(this \<mapsto> this),
              tables = (tables s)(this \<mapsto> (scope (tables s) this)(key \<mapsto> v)),
              ids = r1, outside = w1\<rparr>"
  have first: "memoizedMethod method this args s = (Inr v, ?s1)"
    using assms(4,5)
    by (simp add: memoizedMethod_resolved [OF assms(1,2,3)] retrieve_is_fetch DefaultMap_fetch_def
        entry_scope Map_can_set_def)
  have b: "bound ?s1 this = None \<or> bound ?s1 this = Some this"
    by simp
  have k: "keyFor args (ids ?s1) = (Inr key, r1)"
    using keyFor_stable [OF assms(3)] by simp
  have again: "memoizedMethod method' this args ?s1 = (Inr v, ?s1)" for method'
    by (simp add: memoizedMethod_resolved [OF assms(1) b k] retrieve_is_fetch DefaultMap_fetch_def
        scope_update)
  from first again show ?thesis
    by (intro exI [of _ ?s1]) simp
qed

lemma memoizedMethod_does_not_cache_failure:
  assumes "WeakMap_can_set this"
    and "bound s this = None \<or> bound s this = Some this"
    and "keyFor args (ids s) = (Inr key, r1)"
    and "entry (tables s) this key = None"
    and "method this args (outside s) = (Inl e, w1)"
  shows "\<exists>s1. memoizedMethod method this args s = (Inl e, s1) \<and> outside s1 = w1 \<and>
           entry (tables s1) = entry (tables s)"
proof -
  let ?s1 = "\<lparr>bound = (bound s)(this \<mapsto> this),
              tables = (tables s)(this \<mapsto> scope (tables s) this), ids = r1, outside = w1\<rparr>"
  have first: "memoizedMethod method this args s = (Inl e, ?s1)"
    using assms(4,5)
    by (simp add: memoizedMethod_resolved [OF assms(1,2,3)] retrieve_is_fetch DefaultMap_fetch_def
        entry_scope)
  have "entry (tables ?s1) = entry (tables s)"
    by (auto simp: entry_def scope_def fun_eq_iff split: option.splits)
  with first show ?thesis
    by (intro exI [of _ ?s1]) simp
qed

lemma memoizedGetter_other_receivers:
  "memoizedGetter getter this (m, w) = (res, m', w') \<Longrightarrow> other \<noteq> this \<Longrightarrow> m' other = m other"
  by (auto simp: memoizedGetter_def retrieve_is_fetch DefaultMap_fetch_def
      split: option.splits prod.splits sum.splits if_splits)

lemma memoizedSetter_other_receivers:
  "memoizedSetter setter this v (m, w) = (res, m', w') \<Longrightarrow> other \<noteq> this \<Longrightarrow> m' other = m other"
  by (auto simp: memoizedSetter_def split: option.splits prod.splits sum.splits if_splits)

lemma memoizedGetter_per_instance:
  assumes "WeakMap_can_set a" and "WeakMap_can_set b" and "a \<noteq> b"
    and "m a = None" and "m b = None"
    and "g a w = (Inr va, w1)" and "g b w1 = (Inr vb, w2)"
  shows "memoizedGetter (Some g) a (m, w) = (Inr va, m(a \<mapsto> va), w1) \<and>
         memoizedGetter (Some g) b (m(a \<mapsto> va), w1) = (Inr vb, m(a \<mapsto> va, b \<mapsto> vb), w2) \<and>
         memoizedGetter (Some g) a (m(a \<mapsto> va, b \<mapsto> vb), w2) = (Inr va, m(a \<mapsto> va, b \<mapsto> vb), w2)"
  using assms
  by (simp add: memoizedGetter_def retrieve_is_fetch DefaultMap_fetch_def)



lemma accessor_get_empty_throws:
  "closure_state c = Empty \<Longrightarrow> g this w = (Inl e, w') \<Longrightarrow>
   accessor_get (Some g) this (c, w) = (Inl e, c, w')"
  by (simp add: accessor_get_def closure_state_def split: if_splits)

lemma memoizedGetter_empty_throws:
  "receiver_state m this = Empty \<Longrightarrow> g this w = (Inl e, w') \<Longrightarrow>
   memoizedGetter (Some g) this (m, w) = (Inl e, m, w')"
  by (simp add: memoizedGetter_def retrieve_def receiver_state_def split: option.splits)

section \<open>The identity registry assigns one id per reference\<close>

text \<open>
  Claim C8. In every registry reached from the initial one by registrations, two registered
  references have the same id exactly when they are the same reference; asking again for a
  registered reference returns its id and changes nothing; a reference registered for the
  first time gets the current value of the counter, which is above every id handed out
  before, and the counter moves on by one. The helper \<^verbatim>\<open>retrieve\<close> of \<^verbatim>\<open>descorators.js\<close>
  behaves as \<^verbatim>\<open>Cache.references.get\<close> of \<^verbatim>\<open>function.js\<close> does.
\<close>

theorem registry_ids_identify_references:
  "let r = register_all xs registry0 in
     (\<forall>a b i j. references r a = Some i \<and> references r b = Some j \<longrightarrow> (i = j \<longleftrightarrow> a = b)) \<and>
     (\<forall>a i. references r a = Some i \<longrightarrow>
        i < guuid r \<and> Cache_references_get a r = (Inr i, r) \<and> references_retrieve a r = (Inr i, r)) \<and>
     (\<forall>a. WeakMap_can_set a \<and> references r a = None \<longrightarrow>
        Cache_references_get a r =
          (Inr (guuid r), \<lparr>references = (references r)(a \<mapsto> guuid r), guuid = guuid r + 1\<rparr>) \<and>
        references_retrieve a r = Cache_references_get a r)"
proof -
  have ok: "registry_ok (register_all xs registry0)"
    by (rule registry_ok_register_all [OF registry_ok_initial])
  then show ?thesis
    unfolding Let_def registry_ok_def
    by (auto simp: references_get_hit references_get_miss references_retrieve_is_get)
qed

theorem registry_ids_identify_references_witness:
  "references (register_all [JObject 7, JFunction 7] registry0) (JObject 7) = Some 1 \<and>
   references (register_all [JObject 7, JFunction 7] registry0) (JFunction 7) = Some 2 \<and>
   ((1::nat) = 2 \<longleftrightarrow> JObject 7 = JFunction 7) \<and>
   Cache_references_get (JObject 7) (register_all [JObject 7, JFunction 7] registry0) =
     (Inr 1, register_all [JObject 7, JFunction 7] registry0) \<and>
   WeakMap_can_set (JObject 8) \<and>
   references (register_all [JObject 7, JFunction 7] registry0) (JObject 8) = None \<and>
   fst (Cache_references_get (JObject 8) (register_all [JObject 7, JFunction 7] registry0)) = Inr 3"
proof -
  let ?r = "register_all [JObject 7, JFunction 7] registry0"
  note T = registry_ids_identify_references [of "[JObject 7, JFunction 7]", unfolded Let_def]
  have a: "references ?r (JObject 7) = Some 1"
    by (simp add: registry_eval)
  have b: "references ?r (JFunction 7) = Some 2"
    by (simp add: registry_eval)
  have c: "references ?r (JObject 8) = None"
    by (simp add: registry_eval)
  have g: "guuid ?r = 3"
    by (simp add: registry_eval)
  from T a b have ab: "(1::nat) = 2 \<longleftrightarrow> JObject 7 = JFunction 7"
    by blast
  from T a have hit: "Cache_references_get (JObject 7) ?r = (Inr 1, ?r)"
    by blast
  from T c have "fst (Cache_references_get (JObject 8) ?r) = Inr (guuid ?r)"
    by simp
  with g have miss: "fst (Cache_references_get (JObject 8) ?r) = Inr 3"
    by simp
  from a b ab hit c miss show ?thesis
    by simp
qed

section \<open>Composite keys of strings that hold a quote\<close>

text \<open>
  Claim C1 says that argument lists of different length never share a key. Evaluated on the
  code: the one-element list holding the five-character string \<^verbatim>\<open>a","b\<close> and the two-element
  list of the strings \<^verbatim>\<open>a\<close> and \<^verbatim>\<open>b\<close> get the same key \<^verbatim>\<open>"a","b"\<close>, from \<^verbatim>\<open>Cache.keyFrom\<close>
  (whatever its registry lookup does) and from \<^verbatim>\<open>keyFor\<close>.
\<close>

theorem keyFrom_collides_across_lengths:
  "length [JString (''a'' @ [dq, CHR '','', dq] @ ''b'')] \<noteq> length [JString ''a'', JString ''b''] \<and>
   Cache_keyFrom references_get [JString (''a'' @ [dq, CHR '','', dq] @ ''b'')] r =
     (Inr ([dq] @ ''a'' @ [dq, CHR '','', dq] @ ''b'' @ [dq]), r) \<and>
   Cache_keyFrom references_get [JString ''a'', JString ''b''] r =
     (Inr ([dq] @ ''a'' @ [dq, CHR '','', dq] @ ''b'' @ [dq]), r) \<and>
   keyFor [JString (''a'' @ [dq, CHR '','', dq] @ ''b'')] r' = keyFor [JString ''a'', JString ''b''] r'"
  by (simp add: Cache_keyFrom_def keyFor_def quoted_unescaped)


text \<open>
  Claim C5 says that the token of a string is quoted with its embedded quote characters
  escaped. Evaluated on the code: the token of the one-character string \<^verbatim>\<open>"\<close> is three quote
  characters, nothing is escaped; by that the key of the string \<^verbatim>\<open>","\<close> is the key of two
  empty strings.
\<close>

theorem keyFrom_leaves_quote_unescaped:
  "Cache_keyFrom references_get [JString [dq]] r = (Inr [dq, dq, dq], r) \<and>
   keyFor [JString [dq]] r' = (Inr [dq, dq, dq], r') \<and>
   Cache_keyFrom references_get [JString [dq, CHR '','', dq]] r =
     Cache_keyFrom references_get [JString [], JString []] r"
  by (simp add: Cache_keyFrom_def keyFor_def quoted_unescaped)


section \<open>The value advice of memoize in function.js\<close>

text \<open>
  Claim C4 says that the value advice produces a callable wrapper which delegates to the
  cache. Evaluated on the code: the advice of \<^verbatim>\<open>function.js\<close> returns \<^verbatim>\<open>undefined\<close> for every
  target, so calling the decorated method throws a \<^verbatim>\<open>TypeError\<close> and reaches neither the
  cache nor the target.
\<close>

theorem memoize_value_returns_undefined:
  "memoize_value references_get target = NotCallable JUndefined \<and>
   call_value (memoize_value references_get target) this parameters s = (Inl TypeError, s)"
  by (simp add: memoize_value_def)


section \<open>The accessor advice of memoize in function.js\<close>

text \<open>
  Claim C6 says that a memoized getter is cached per instance. Evaluated on the code, with
  a getter that returns the instance it is called on: after instance 1 has read the
  property, a read on instance 2 returns the value of instance 1 and does not run the
  getter; a write on instance 2 empties the one cache that instance 1 reads from.
\<close>

theorem accessor_cache_shared_between_instances:
  "accessor_get (Some (\<lambda>this w. (Inr this, w))) (JObject 1) (closure0, w) =
     (Inr (JObject 1), \<lparr>cache = JObject 1, invalid = False\<rparr>, w) \<and>
   accessor_get (Some (\<lambda>this w. (Inr this, w))) (JObject 2) (\<lparr>cache = JObject 1, invalid = False\<rparr>, w) =
     (Inr (JObject 1), \<lparr>cache = JObject 1, invalid = False\<rparr>, w) \<and>
   accessor_set (Some (\<lambda>this v w. (Inr JUndefined, w))) (JObject 2) (JNumber 5) (\<lparr>cache = JObject 1, invalid = False\<rparr>, w) =
     (Inr JUndefined, closure0, w)"
  by (simp add: accessor_get_def accessor_set_def closure0_def)


section \<open>The default setter of memoize in descorators.js\<close>

text \<open>
  Claim C10. Without a user-defined setter, a write of \<^verbatim>\<open>undefined\<close> deletes the cached
  entry of the instance and touches no other; a write of any other value throws a
  \<^verbatim>\<open>TypeError\<close> and leaves the cache as it was.
\<close>

theorem default_setter_accepts_only_undefined:
  "(v = JUndefined \<longrightarrow>
      memoizedSetter None this v (c, w) = (Inr JUndefined, c(this := None), w)) \<and>
   (v \<noteq> JUndefined \<longrightarrow>
      memoizedSetter None this v (c, w) = (Inl TypeError, c, w))"
  by (simp add: memoizedSetter_def)

theorem default_setter_accepts_only_undefined_witness:
  "memoizedSetter None (JObject 1) JUndefined ([JObject 1 \<mapsto> JNumber 4], ()) =
     (Inr JUndefined, [JObject 1 \<mapsto> JNumber 4](JObject 1 := None), ()) \<and>
   JNull \<noteq> JUndefined \<and>
   memoizedSetter None (JObject 1) JNull ([JObject 1 \<mapsto> JNumber 4], ()) =
     (Inl TypeError, [JObject 1 \<mapsto> JNumber 4], ())"
  using default_setter_accepts_only_undefined [of JUndefined "JObject 1" "[JObject 1 \<mapsto> JNumber 4]" "()"]
    default_setter_accepts_only_undefined [of JNull "JObject 1" "[JObject 1 \<mapsto> JNumber 4]" "()"]
  by simp

section \<open>fetch computes once per receiver and key\<close>



section \<open>fetch does not remember a failure\<close>

text \<open>
  Claim C3. When the compute thunk throws \<open>e\<close> on a miss, \<^verbatim>\<open>fetch\<close> throws \<open>e\<close>, the world is
  as compute left it, no receiver has gained an entry, and the next \<^verbatim>\<open>fetch\<close> with the same
  receiver and the same key runs the thunk it is given: its outcome and its world are the
  thunk's.
\<close>

theorem fetch_does_not_cache_failure:
  assumes "WeakMap_can_set receiver"
    and "Cache_keyFrom lk A (registry s) = (Inr key, r1)"
    and "entry (store s) receiver key = None"
    and "compute (world s) = (Inl e, w1)"
  shows "\<exists>s1. Cache_fetch lk receiver A compute s = (Inl e, s1) \<and>
           world s1 = w1 \<and> registry s1 = r1 \<and>
           entry (store s1) = entry (store s) \<and>
           (\<forall>A' r2 compute' res w2.
              Cache_keyFrom lk A' r1 = (Inr key, r2) \<and> compute' w1 = (res, w2) \<longrightarrow>
              (\<exists>s2. Cache_fetch lk receiver A' compute' s1 = (res, s2) \<and> world s2 = w2))"
proof -
  let ?s1 = "\<lparr>store = (store s)(receiver \<mapsto> scope (store s) receiver), registry = r1, world = w1\<rparr>"
  have first: "Cache_fetch lk receiver A compute s = (Inl e, ?s1)"
    using assms(4) by (simp add: Cache_fetch_miss [OF assms(1,2,3)])
  have same: "entry (store ?s1) = entry (store s)"
    by (auto simp: entry_def scope_def fun_eq_iff split: option.splits)
  have none: "entry (store ?s1) receiver key = None"
    using same assms(3) by simp
  have retry: "\<exists>s2. Cache_fetch lk receiver A' compute' ?s1 = (res, s2) \<and> world s2 = w2"
    if "Cache_keyFrom lk A' r1 = (Inr key, r2)" and "compute' w1 = (res, w2)"
    for A' r2 compute' res w2
  proof -
    from that(1) have k: "Cache_keyFrom lk A' (registry ?s1) = (Inr key, r2)"
      by simp
    from that(2) show ?thesis
      by (cases res) (simp_all add: Cache_fetch_miss [OF assms(1) k none])
  qed
  from first same retry show ?thesis
    by (intro exI [of _ ?s1]) auto
qed

theorem fetch_does_not_cache_failure_witness:
  "WeakMap_can_set (JObject 1) \<and>
   Cache_keyFrom Cache_references_get [JNumber 1, JString ''a''] registry0 =
     (Inr (''1,'' @ [dq] @ ''a'' @ [dq]), registry0) \<and>
   entry Map.empty (JObject 1) (''1,'' @ [dq] @ ''a'' @ [dq]) = None \<and>
   (\<exists>s1. Cache_fetch Cache_references_get (JObject 1) [JNumber 1, JString ''a'']
            (\<lambda>n. (Inl (Thrown (JString ''boom'')), n + 1))
            \<lparr>store = Map.empty, registry = registry0, world = 0::nat\<rparr> =
              (Inl (Thrown (JString ''boom'')), s1) \<and>
         world s1 = 1 \<and>
         entry (store s1) (JObject 1) (''1,'' @ [dq] @ ''a'' @ [dq]) = None \<and>
         (\<exists>s2. Cache_fetch Cache_references_get (JObject 1) [JNumber 1, JString ''a'']
            (\<lambda>n. (Inr (JNumber 42), n + 1)) s1 = (Inr (JNumber 42), s2) \<and> world s2 = 2))"
proof -
  let ?s = "\<lparr>store = Map.empty, registry = registry0, world = 0::nat\<rparr>"
  let ?A = "[JNumber 1, JString ''a'']"
  let ?k = "''1,'' @ [dq] @ ''a'' @ [dq]"
  let ?boom = "\<lambda>n::nat. (Inl (Thrown (JString ''boom'')) :: error + jsval, n + 1)"
  let ?ok = "\<lambda>n::nat. (Inr (JNumber 42) :: error + jsval, n + 1)"
  have h1: "WeakMap_can_set (JObject 1)"
    by simp
  have h2: "Cache_keyFrom Cache_references_get ?A (registry ?s) = (Inr ?k, registry0)"
    by (simp add: key_1_a)
  have h3: "entry (store ?s) (JObject 1) ?k = None"
    by (simp add: entry_def)
  have h5: "Cache_keyFrom Cache_references_get ?A registry0 = (Inr ?k, registry0)"
    by (simp only: key_1_a)
  note T = fetch_does_not_cache_failure [where lk = Cache_references_get and receiver = "JObject 1"
      and A = ?A and s = ?s and key = ?k and ?r1.0 = registry0 and compute = ?boom
      and e = "Thrown (JString ''boom'')" and ?w1.0 = 1]
  from T h1 h2 h3
  obtain s1 where first: "Cache_fetch Cache_references_get (JObject 1) ?A ?boom ?s =
        (Inl (Thrown (JString ''boom'')), s1)"
    and w1: "world s1 = 1"
    and same: "entry (store s1) = entry (store ?s)"
    and retry: "\<And>A' r2 compute' res w2.
        Cache_keyFrom Cache_references_get A' registry0 = (Inr ?k, r2) \<Longrightarrow> compute' 1 = (res, w2) \<Longrightarrow>
        \<exists>s2. Cache_fetch Cache_references_get (JObject 1) A' compute' s1 = (res, s2) \<and> world s2 = w2"
    by auto
  from retry [of ?A registry0 ?ok "Inr (JNumber 42)" 2] h5
  have second: "\<exists>s2. Cache_fetch Cache_references_get (JObject 1) ?A ?ok s1 = (Inr (JNumber 42), s2) \<and> world s2 = 2"
    by simp
  have none1: "entry (store s1) (JObject 1) ?k = None"
    using same by (simp add: entry_def)
  have none0: "entry Map.empty (JObject 1) ?k = None"
    by (simp add: entry_def)
  from h1 h5 none0 first w1 none1 second show ?thesis
    by blast
qed

section \<open>The cache entry of a memoized accessor\<close>




section \<open>A memoized class and an argument that is a reference\<close>

text \<open>
  Claim C9 says that constructing twice with the same argument list yields the same
  instance, for every argument list. Evaluated on the code of \<^verbatim>\<open>function.js\<close>, with the
  lookup that its undeclared identifier \<^verbatim>\<open>references\<close> gives: for the argument list that
  holds one object, the first construction throws a \<^verbatim>\<open>ReferenceError\<close> while the key is
  built, and so does the second; no constructor runs and no instance is returned.
\<close>

theorem MemoizedClass_throws_on_reference_argument:
  "MemoizedClass references_undeclared (JFunction 0) new_target [JObject 5]
     \<lparr>store = Map.empty, registry = r, world = w\<rparr> =
     (Inl ReferenceError, \<lparr>store = [JFunction 0 \<mapsto> Map.empty], registry = r, world = w\<rparr>) \<and>
   MemoizedClass references_undeclared (JFunction 0) new_target [JObject 5]
     \<lparr>store = [JFunction 0 \<mapsto> Map.empty], registry = r, world = w\<rparr> =
     (Inl ReferenceError, \<lparr>store = [JFunction 0 \<mapsto> Map.empty], registry = r, world = w\<rparr>)"
  by (simp add: MemoizedClass_def Cache_fetch_def DefaultMap_get_def DefaultMap_fetch_def
      new_table_def Cache_keyFrom_def references_undeclared_def)

end
